theory Spec2Isabelle
  imports Complex_Main "HOL-Library.List_Lexorder"
begin

section \<open>JavaScript values\<close>

text \<open>
  A JavaScript string is the list of its UTF-16 code units, each a number below 65536;
  \<open>js\<close> turns a literal of Basic Latin characters into that list. Its \<open>length\<close> counts
  code units, and two strings are compared code unit by code unit, lexicographically.
  A JavaScript number that is only stored and copied (a latitude, a longitude) is a
  \<open>real\<close>.
\<close>

type_synonym js_string = "nat list"

definition js :: "string \<Rightarrow> js_string" where
  "js s = map of_char s"

section \<open>The location search controller (EnhancedLocationSearch, src/src/App.jsx)\<close>

text \<open>
  The component's \<open>useState\<close> cells and its \<open>useRef\<close> cell are the fields of one record;
  every handler takes the record and returns the updated one.
\<close>

datatype provider = nominatim | photon

text \<open>The normalised suggestion both providers' \<open>search\<close> functions return.\<close>

record place =
  place_id :: "int option"
  display_name :: js_string
  lat :: real
  lon :: real
  place_type :: "js_string option"

text \<open>
  A network lookup as \<open>fetch\<close> receives it: the provider's URL, the query, and the
  \<open>signal\<close> option of the \<open>fetch\<close> call (the index of an AbortController, when one is
  passed).
\<close>

record request =
  req_provider :: provider
  req_query :: js_string
  req_signal :: "nat option"

text \<open>
  \<open>controllers\<close> is the heap of AbortController objects created so far, each one its
  \<open>aborted\<close> flag; \<open>abortControllerRef\<close> is the ref cell pointing into it.
  \<open>requests\<close> lists the lookups handed to \<open>fetch\<close>, in the order issued, and \<open>settled\<close>
  the ones whose promise has already settled.
\<close>

record search_state =
  query :: js_string
  suggestions :: "place list"
  selectedPosition :: "(real \<times> real) option"
  selectedName :: js_string
  isExpanded :: bool
  isLoading :: bool
  error :: js_string
  apiProvider :: provider
  showSettings :: bool
  abortControllerRef :: "nat option"
  controllers :: "bool list"
  requests :: "request list"
  settled :: "nat list"

text \<open>The state after the first render: the \<open>useState\<close> initial values.\<close>

definition initial_search :: search_state where
  "initial_search =
     \<lparr>query = [], suggestions = [], selectedPosition = None, selectedName = [],
      isExpanded = False, isLoading = False, error = [], apiProvider = photon,
      showSettings = False, abortControllerRef = None, controllers = [],
      requests = [], settled = []\<rparr>"

text \<open>What a lookup's promise settles with: the normalised results, or a thrown error's \<open>name\<close>.\<close>

datatype outcome = Results "place list" | Throws js_string

text \<open>
  \<open>fetch\<close>: a call whose signal has been aborted rejects with an AbortError; a call
  without a signal settles with whatever the network delivers.
\<close>

definition fetch :: "bool list \<Rightarrow> nat option \<Rightarrow> outcome \<Rightarrow> outcome" where
  "fetch cs signal net =
     (case signal of
        None \<Rightarrow> net
      | Some c \<Rightarrow> if c < length cs \<and> cs ! c then Throws (js ''AbortError'') else net)"

text \<open>
  \<open>searchLocations\<close>, up to its \<open>await\<close>: the length guard, the abort of the controller in
  the ref, the new controller, \<open>setIsLoading(true)\<close>, \<open>setError('')\<close>, and the call of the
  provider's \<open>search\<close>, which calls \<open>fetch(url)\<close> or \<open>fetch(url, {headers})\<close>: no
  \<open>signal\<close> is passed.
\<close>

definition searchLocations :: "search_state \<Rightarrow> js_string \<Rightarrow> search_state" where
  "searchLocations s searchQuery =
     (if searchQuery = [] \<or> length searchQuery < 3 then s\<lparr>suggestions := []\<rparr>
      else
        let cs = (case abortControllerRef s of
                    Some c \<Rightarrow> (controllers s)[c := True]
                  | None \<Rightarrow> controllers s)
        in s\<lparr>controllers := cs @ [False],
              abortControllerRef := Some (length cs),
              isLoading := True,
              error := [],
              requests := requests s @
                [\<lparr>req_provider = apiProvider s, req_query = searchQuery, req_signal = None\<rparr>]\<rparr>)"

text \<open>\<open>searchLocations\<close> after its \<open>await\<close>: the \<open>try\<close> body, the \<open>catch\<close> and the \<open>finally\<close>.\<close>

definition searchLocations_settled :: "search_state \<Rightarrow> outcome \<Rightarrow> search_state" where
  "searchLocations_settled s r =
     (case r of
        Results results \<Rightarrow>
          (if length results > 0 then s\<lparr>suggestions := results\<rparr>
           else s\<lparr>suggestions := [], error := js ''No results found''\<rparr>)
      | Throws name \<Rightarrow>
          (if name \<noteq> js ''AbortError''
           then s\<lparr>error := js ''Search failed. Please try again.'', suggestions := []\<rparr>
           else s))
     \<lparr>isLoading := False\<rparr>"

definition handleInputChange :: "search_state \<Rightarrow> js_string \<Rightarrow> search_state" where
  "handleInputChange s v =
     (let s' = s\<lparr>query := v, error := []\<rparr>
      in if length v \<ge> 3 then s'\<lparr>isExpanded := True\<rparr> else s')"

text \<open>The Leaflet map behind \<open>mapRef.current\<close>: its view.\<close>

record leaflet_map =
  center :: "real \<times> real"
  zoom :: nat

definition setView :: "leaflet_map \<Rightarrow> real \<times> real \<Rightarrow> nat \<Rightarrow> leaflet_map" where
  "setView m position z = m\<lparr>center := position, zoom := z\<rparr>"

definition handleSelect :: "search_state \<Rightarrow> leaflet_map option \<Rightarrow> place \<Rightarrow> search_state \<times> leaflet_map option" where
  "handleSelect s mapRef p =
     (let position = (lat p, lon p);
          s' = s\<lparr>selectedPosition := Some position,
                 selectedName := display_name p,
                 query := display_name p,
                 suggestions := [],
                 isExpanded := False,
                 error := []\<rparr>
      in (s', case mapRef of
                Some m \<Rightarrow> Some (setView m position 14)
              | None \<Rightarrow> None))"

definition handleClear :: "search_state \<Rightarrow> search_state" where
  "handleClear s =
     s\<lparr>query := [], suggestions := [], selectedPosition := None, selectedName := [],
       isExpanded := False, error := []\<rparr>"

definition toggleExpand :: "search_state \<Rightarrow> search_state" where
  "toggleExpand s = s\<lparr>isExpanded := \<not> isExpanded s\<rparr>"

text \<open>
  The event loop as far as the lookups go: the debounce effect calls \<open>searchLocations\<close>
  with a query, and the promise of the \<open>k\<close>-th request issued settles, once, with what
  \<open>fetch\<close> makes of the network's answer.
\<close>

datatype event = Lookup js_string | Arrive nat outcome

fun step :: "search_state \<Rightarrow> event \<Rightarrow> search_state" where
  "step s (Lookup q) = searchLocations s q"
| "step s (Arrive k net) =
     (if k < length (requests s) \<and> k \<notin> set (settled s)
      then (searchLocations_settled s
              (fetch (controllers s) (req_signal (requests s ! k)) net))
           \<lparr>settled := k # settled s\<rparr>
      else s)"

definition run :: "search_state \<Rightarrow> event list \<Rightarrow> search_state" where
  "run s es = foldl step s es"

text \<open>Two suggestions used as concrete inputs.\<close>

definition paris :: place where
  "paris = \<lparr>place_id = Some 7444, display_name = js ''Paris, France'', lat = 48.85, lon = 2.35,
            place_type = Some (js ''city'')\<rparr>"

definition parma :: place where
  "parma = \<lparr>place_id = Some 43, display_name = js ''Parma, Italy'', lat = 44.8, lon = 10.33,
            place_type = Some (js ''city'')\<rparr>"

section \<open>The dashboard (SimpleMapWithSearch, src/src/App.jsx)\<close>

text \<open>
  The form's data, the document \<open>handleFormSubmit\<close> writes (\<open>{...formData, lat, lng,
  timestamp}\<close>) and the marker of the local list (\<open>{id: doc.id, ...doc.data()}\<close>) are
  three records, each extending the one before. The built-in markers of the initial state
  carry no \<open>id\<close>. A timestamp is the string \<open>new Date().toISOString()\<close> returns; strings
  are compared lexicographically.
\<close>

record form_data =
  site_name :: js_string
  description :: js_string
  salesperson :: js_string
  stage :: js_string

record newMarker = form_data +
  lat' :: real
  lng :: real
  timestamp :: js_string

record marker = newMarker +
  marker_id :: "js_string option"

definition DEFAULT_STAGE :: js_string where
  "DEFAULT_STAGE = js ''Pipeline''"

definition STAGES :: "js_string list" where
  "STAGES = [js ''Pipeline'', js ''In Proposal'', js ''POC Stage'', js ''Current Client'']"

record dashboard =
  markers :: "marker list"
  showForm :: bool
  formLatLng :: "(real \<times> real) option"
  formData :: form_data
  search :: js_string
  selectedMarkerIdx :: "int option"
  editMode :: bool
  editingId :: "js_string option"

definition empty_form :: "js_string \<Rightarrow> form_data" where
  "empty_form sp =
     \<lparr>site_name = [], description = [], salesperson = sp, stage = DEFAULT_STAGE\<rparr>"

text \<open>
  The initial value of the \<open>markers\<close> cell: six built-in records, each stamped by its own
  \<open>new Date().toISOString()\<close>; \<open>clock k\<close> is the \<open>k\<close>-th reading.
\<close>

definition initial_markers :: "(nat \<Rightarrow> js_string) \<Rightarrow> marker list" where
  "initial_markers clock =
     [\<lparr>site_name = js ''Acme Corp'', description = js ''Ohio'', salesperson = js ''John'',
       stage = js ''Pipeline'', lat' = 41.5, lng = - 82.7, timestamp = clock 0, marker_id = None\<rparr>,
      \<lparr>site_name = js ''Globex Inc'', description = js ''West Virginia'', salesperson = js ''Jane'',
       stage = js ''In Proposal'', lat' = 39.3, lng = - 80.0, timestamp = clock 1, marker_id = None\<rparr>,
      \<lparr>site_name = js ''Stark Industries'', description = js ''New York'', salesperson = js ''Tony'',
       stage = js ''POC Stage'', lat' = 43.0, lng = - 76.0, timestamp = clock 2, marker_id = None\<rparr>,
      \<lparr>site_name = js ''Wayne Enterprises'', description = js ''Philadelphia'', salesperson = js ''Bruce'',
       stage = js ''Current Client'', lat' = 39.95, lng = - 75.16, timestamp = clock 3,
       marker_id = None\<rparr>,
      \<lparr>site_name = js ''Tech Solutions'', description = js ''California'', salesperson = js ''Alice'',
       stage = js ''Pipeline'', lat' = 37.7749, lng = - 122.4194, timestamp = clock 4,
       marker_id = None\<rparr>,
      \<lparr>site_name = js ''Global Systems'', description = js ''Texas'', salesperson = js ''Bob'',
       stage = js ''Current Client'', lat' = 32.7767, lng = - 96.7970, timestamp = clock 5,
       marker_id = None\<rparr>]"

definition initial_dashboard :: "(nat \<Rightarrow> js_string) \<Rightarrow> dashboard" where
  "initial_dashboard clock =
     \<lparr>markers = initial_markers clock, showForm = False, formLatLng = None,
      formData = empty_form [], search = [], selectedMarkerIdx = None,
      editMode = False, editingId = None\<rparr>"

subsection \<open>The subscription\<close>

text \<open>The constraints the subscription effect passes to \<open>query\<close>.\<close>

datatype constraint = where_salesperson_eq js_string | orderBy_timestamp_desc

definition clients_query :: "js_string \<Rightarrow> constraint list" where
  "clients_query email =
     (let isAdmin = (email = js ''admin@seewise.ai'')
      in (if isAdmin then [] else [where_salesperson_eq email]) @ [orderBy_timestamp_desc])"

text \<open>
  The \<open>onSnapshot\<close> callback: every document of the snapshot becomes a marker carrying
  the document's identifier, and the list replaces the \<open>markers\<close> cell.
\<close>

definition snapshot_marker :: "js_string \<times> newMarker \<Rightarrow> marker" where
  "snapshot_marker d =
     \<lparr>site_name = site_name (snd d), description = description (snd d),
      salesperson = salesperson (snd d), stage = stage (snd d),
      lat' = lat' (snd d), lng = lng (snd d), timestamp = timestamp (snd d),
      marker_id = Some (fst d)\<rparr>"

definition onSnapshot :: "dashboard \<Rightarrow> (js_string \<times> newMarker) list \<Rightarrow> dashboard" where
  "onSnapshot d docs = d\<lparr>markers := map snapshot_marker docs\<rparr>"

subsection \<open>The sidebar filter\<close>

text \<open>
  \<open>includes\<close> tries the needle at every position of the text, from the left.
\<close>

fun startsWith :: "js_string \<Rightarrow> js_string \<Rightarrow> bool" where
  "startsWith s [] = True"
| "startsWith [] (c # cs) = False"
| "startsWith (x # xs) (c # cs) = (x = c \<and> startsWith xs cs)"

fun includes_str :: "js_string \<Rightarrow> js_string \<Rightarrow> bool" where
  "includes_str [] needle = startsWith [] needle"
| "includes_str (x # xs) needle = (startsWith (x # xs) needle \<or> includes_str xs needle)"

text \<open>
  \<open>String.prototype.toLowerCase\<close> is the engine's own function: the repository holds
  only the calls. It maps the whole string (a capital sigma at the end of a word becomes
  a final sigma, U+0130 becomes two code units), so it is not a map over code units, and
  the filter takes it as the parameter \<open>toLowerCase\<close>.
\<close>

definition filteredMarkers ::
  "(js_string \<Rightarrow> js_string) \<Rightarrow> marker list \<Rightarrow> js_string \<Rightarrow> marker list" where
  "filteredMarkers toLowerCase ms srch =
     filter (\<lambda>m. includes_str (toLowerCase (site_name m)) (toLowerCase srch) \<or>
                 includes_str (toLowerCase (stage m)) (toLowerCase srch)) ms"

text \<open>
  The spec's words. A text contains another as a substring when the other is a contiguous
  part of it. It contains the search text as a case-insensitive substring when a
  contiguous part of it equals the search text letter by letter, a capital letter and its
  small letter counting as the same letter. The letters are those of the code units up to
  U+00FF: the capitals are A to Z, U+00C0 to U+00D6 and U+00D8 to U+00DE, and the small
  letter of a capital lies 32 above it.
\<close>

definition contains_substring :: "js_string \<Rightarrow> js_string \<Rightarrow> bool" where
  "contains_substring txt s = (\<exists>before after. txt = before @ s @ after)"

definition capital_latin1 :: "nat \<Rightarrow> bool" where
  "capital_latin1 c =
     ((0x41 \<le> c \<and> c \<le> 0x5A) \<or> (0xC0 \<le> c \<and> c \<le> 0xD6) \<or> (0xD8 \<le> c \<and> c \<le> 0xDE))"

definition same_letter :: "nat \<Rightarrow> nat \<Rightarrow> bool" where
  "same_letter c d =
     (c = d \<or> (capital_latin1 c \<and> d = c + 32) \<or> (capital_latin1 d \<and> c = d + 32))"

definition same_up_to_case :: "js_string \<Rightarrow> js_string \<Rightarrow> bool" where
  "same_up_to_case a b = list_all2 same_letter a b"

definition contains_case_insensitive :: "js_string \<Rightarrow> js_string \<Rightarrow> bool" where
  "contains_case_insensitive txt srch =
     (\<exists>before part after. txt = before @ part @ after \<and> same_up_to_case part srch)"

text \<open>
  What the engine's \<open>toLowerCase\<close> does to a text of code units up to U+00FF: every code
  unit is mapped by itself, a capital letter to its small letter and any other code unit
  to itself.
\<close>

definition latin1 :: "js_string \<Rightarrow> bool" where
  "latin1 s = list_all (\<lambda>c. c \<le> 0xFF) s"

definition lower_latin1 :: "nat \<Rightarrow> nat" where
  "lower_latin1 c = (if capital_latin1 c then c + 32 else c)"

subsection \<open>The form\<close>

definition handleMapClick :: "dashboard \<Rightarrow> js_string \<Rightarrow> real \<times> real \<Rightarrow> dashboard" where
  "handleMapClick d email latlng =
     d\<lparr>formLatLng := Some latlng, formData := empty_form email, showForm := True\<rparr>"

datatype form_field = f_site_name | f_description | f_salesperson | f_stage

fun handleFormChange :: "dashboard \<Rightarrow> form_field \<Rightarrow> js_string \<Rightarrow> dashboard" where
  "handleFormChange d f_site_name v = d\<lparr>formData := (formData d)\<lparr>site_name := v\<rparr>\<rparr>"
| "handleFormChange d f_description v = d\<lparr>formData := (formData d)\<lparr>description := v\<rparr>\<rparr>"
| "handleFormChange d f_salesperson v = d\<lparr>formData := (formData d)\<lparr>salesperson := v\<rparr>\<rparr>"
| "handleFormChange d f_stage v = d\<lparr>formData := (formData d)\<lparr>stage := v\<rparr>\<rparr>"

definition handleEdit :: "dashboard \<Rightarrow> marker \<Rightarrow> dashboard" where
  "handleEdit d m =
     d\<lparr>formLatLng := Some (lat' m, lng m),
       formData := \<lparr>site_name = site_name m, description = description m,
                    salesperson = salesperson m, stage = stage m\<rparr>,
       editingId := marker_id m,
       editMode := True,
       showForm := True\<rparr>"

text \<open>
  \<open>handleFormSubmit\<close> up to its \<open>await\<close>: reading \<open>formLatLng.lat\<close> of a null
  \<open>formLatLng\<close> throws a TypeError before anything is written; otherwise the document
  is stamped with the time of the submission \<open>now\<close> and handed to \<open>updateDoc\<close> when an
  edit is in progress (\<open>editMode && editingId\<close>; a missing or empty identifier is falsy),
  to \<open>addDoc\<close> otherwise.
\<close>

datatype js_error = TypeError

datatype db_write = updateDoc js_string newMarker | addDoc newMarker

fun written :: "db_write \<Rightarrow> newMarker" where
  "written (updateDoc i nm) = nm"
| "written (addDoc nm) = nm"

text \<open>
  The identifier of the document a write leaves in the store: the edited identifier for
  an update, the one the store assigns (\<open>newid\<close>) for an add.
\<close>

fun written_id :: "js_string \<Rightarrow> db_write \<Rightarrow> js_string" where
  "written_id newid (updateDoc i nm) = i"
| "written_id newid (addDoc nm) = newid"

definition handleFormSubmit :: "dashboard \<Rightarrow> js_string \<Rightarrow> js_error + db_write" where
  "handleFormSubmit d now =
     (case formLatLng d of
        None \<Rightarrow> Inl TypeError
      | Some latlng \<Rightarrow>
          let nm = \<lparr>site_name = site_name (formData d), description = description (formData d),
                    salesperson = salesperson (formData d), stage = stage (formData d),
                    lat' = fst latlng, lng = snd latlng, timestamp = now\<rparr>
          in Inr (case editingId d of
                    Some i \<Rightarrow> if editMode d \<and> i \<noteq> [] then updateDoc i nm else addDoc nm
                  | None \<Rightarrow> addDoc nm))"

text \<open>After the \<open>await\<close>: the form is reset when the write succeeded, left as it is otherwise.\<close>

definition handleFormSubmit_settled :: "dashboard \<Rightarrow> bool \<Rightarrow> dashboard" where
  "handleFormSubmit_settled d ok =
     (if ok
      then d\<lparr>showForm := False, editMode := False, editingId := None, formLatLng := None,
             formData := empty_form []\<rparr>
      else d)"

subsection \<open>The document store\<close>

text \<open>
  The document store is a hosted service; the repository holds only the calls made to it.
  Its behaviour is taken from the spec, which gives it a collection of client records with
  filtered and ordered live queries, add with a store-assigned identifier, and
  full-document update by identifier; a live push delivers the full current result set of
  the subscribed query. The collection is a list of identifier and document, in the order
  added.
\<close>

type_synonym collection = "(js_string \<times> newMarker) list"

text \<open>
  Modelled from the spec: the store's evaluation of one query constraint on a document, which
  the repository does not contain. An equality filter holds of the documents with that
  salesperson; an ordering excludes nothing.
\<close>

fun satisfies :: "newMarker \<Rightarrow> constraint \<Rightarrow> bool" where
  "satisfies nm (where_salesperson_eq e) = (salesperson nm = e)"
| "satisfies nm orderBy_timestamp_desc = True"

text \<open>
  Modelled from the spec: the store's evaluation of a query, which the repository does not
  contain. The result set holds the documents that meet every filter, by descending
  timestamp when the query orders them.
\<close>

definition run_query :: "constraint list \<Rightarrow> collection \<Rightarrow> collection" where
  "run_query cs docs =
     (let hits = filter (\<lambda>d. list_all (satisfies (snd d)) cs) docs
      in if orderBy_timestamp_desc \<in> set cs
         then rev (sort_key (\<lambda>d. timestamp (snd d)) hits)
         else hits)"

datatype store_error = NotFound

text \<open>
  Modelled from the spec: the store's application of a write, which the repository does not
  contain. \<open>newid\<close> is the identifier the store assigns to an added document; an update
  replaces the document stored under its identifier and fails when there is none.
\<close>

fun apply_write :: "collection \<Rightarrow> js_string \<Rightarrow> db_write \<Rightarrow> store_error + collection" where
  "apply_write docs newid (addDoc nm) = Inr (docs @ [(newid, nm)])"
| "apply_write docs newid (updateDoc i nm) =
     (if i \<in> fst ` set docs
      then Inr (map (\<lambda>d. if fst d = i then (i, nm) else d) docs)
      else Inl NotFound)"

text \<open>
  Modelled from the spec: the live push, which the repository does not contain. The store
  evaluates the subscription's query on the collection and the \<open>onSnapshot\<close> callback
  receives the result set.
\<close>

definition next_snapshot :: "dashboard \<Rightarrow> js_string \<Rightarrow> collection \<Rightarrow> dashboard" where
  "next_snapshot d email docs = onSnapshot d (run_query (clients_query email) docs)"

section \<open>Registration (LoginPage, src/src/components/login.jsx)\<close>

datatype login_effect =
    alert js_string
  | setLoading bool
  | createUserWithEmailAndPassword js_string js_string
  | updateProfile js_string
  | onLogin

fun is_network_call :: "login_effect \<Rightarrow> bool" where
  "is_network_call (createUserWithEmailAndPassword e p) = True"
| "is_network_call (updateProfile n) = True"
| "is_network_call _ = False"

definition endsWith :: "js_string \<Rightarrow> js_string \<Rightarrow> bool" where
  "endsWith s e = (length e \<le> length s \<and> drop (length s - length e) s = e)"

text \<open>
  \<open>trim\<close> strips the white space and line terminator code units of the language from
  both ends.
\<close>

definition is_space :: "nat \<Rightarrow> bool" where
  "is_space c =
     (c = 0x09 \<or> c = 0x0A \<or> c = 0x0B \<or> c = 0x0C \<or> c = 0x0D \<or> c = 0x20 \<or> c = 0xA0 \<or>
      c = 0x1680 \<or> (0x2000 \<le> c \<and> c \<le> 0x200A) \<or> c = 0x2028 \<or> c = 0x2029 \<or>
      c = 0x202F \<or> c = 0x205F \<or> c = 0x3000 \<or> c = 0xFEFF)"

definition trim :: "js_string \<Rightarrow> js_string" where
  "trim s = rev (dropWhile is_space (rev (dropWhile is_space s)))"

text \<open>
  \<open>handleRegister\<close>, as the sequence of its effects. \<open>created\<close> and \<open>updated\<close> are what
  the two calls of the identity provider settle with, when they are made: \<open>None\<close> for
  success, \<open>Some msg\<close> for a rejection with that message.
\<close>

definition handleRegister ::
  "js_string \<Rightarrow> js_string \<Rightarrow> js_string \<Rightarrow> js_string \<Rightarrow> js_string option \<Rightarrow> js_string option \<Rightarrow> login_effect list" where
  "handleRegister email password confirmPassword fullName created updated =
     (if \<not> endsWith email (js ''@seewise.ai'')
      then [alert (js ''Only @seewise.ai emails are allowed to register.'')]
      else if password \<noteq> confirmPassword
      then [alert (js ''Passwords do not match'')]
      else if length password < 6
      then [alert (js ''Password must be at least 6 characters long'')]
      else
        [setLoading True, createUserWithEmailAndPassword email password] @
        (case created of
           Some msg \<Rightarrow> [alert msg]
         | None \<Rightarrow>
             (if trim fullName \<noteq> []
              then updateProfile (trim fullName) #
                   (case updated of
                      Some msg \<Rightarrow> [alert msg]
                    | None \<Rightarrow> [alert (js ''Account created successfully!''), onLogin])
              else [alert (js ''Account created successfully!''), onLogin])) @
        [setLoading False])"

section \<open>Concrete inputs\<close>

text \<open>
  A clock that always reads the same instant; two forms filled in by the user
  bob@seewise.ai after a click on the map, one naming another salesperson and one keeping
  his own address, with the documents their submission writes; and a collection of two
  older documents, the first of them opened for editing by the administrator.
\<close>

definition fixed_clock :: "nat \<Rightarrow> js_string" where
  "fixed_clock k = js ''2025-01-01T00:00:00.000Z''"

definition bob_form :: dashboard where
  "bob_form =
     handleFormChange
       (handleFormChange
          (handleMapClick (initial_dashboard fixed_clock) (js ''bob@seewise.ai'') (10, 20))
          f_site_name (js ''Initech''))
       f_salesperson (js ''carol@seewise.ai'')"

definition carol_doc :: newMarker where
  "carol_doc =
     \<lparr>site_name = js ''Initech'', description = [], salesperson = js ''carol@seewise.ai'',
      stage = js ''Pipeline'', lat' = 10, lng = 20, timestamp = js ''2025-03-01T10:00:00.000Z''\<rparr>"

definition bob_own_form :: dashboard where
  "bob_own_form =
     handleFormChange
       (handleMapClick (initial_dashboard fixed_clock) (js ''bob@seewise.ai'') (10, 20))
       f_site_name (js ''Initech'')"

definition bob_doc :: newMarker where
  "bob_doc =
     \<lparr>site_name = js ''Initech'', description = [], salesperson = js ''bob@seewise.ai'',
      stage = js ''Pipeline'', lat' = 10, lng = 20, timestamp = js ''2025-03-01T10:00:00.000Z''\<rparr>"

definition old_a :: newMarker where
  "old_a =
     \<lparr>site_name = js ''Acme'', description = js ''Ohio'', salesperson = js ''bob@seewise.ai'',
      stage = js ''Pipeline'', lat' = 41.5, lng = - 82.7, timestamp = js ''2024-01-01T00:00:00.000Z''\<rparr>"

definition old_b :: newMarker where
  "old_b =
     \<lparr>site_name = js ''Globex'', description = js ''Texas'', salesperson = js ''carol@seewise.ai'',
      stage = js ''POC Stage'', lat' = 32.5, lng = - 96.5, timestamp = js ''2024-02-01T00:00:00.000Z''\<rparr>"

definition edit_form :: dashboard where
  "edit_form =
     handleEdit
       (next_snapshot (initial_dashboard fixed_clock) (js ''admin@seewise.ai'')
          [(js ''a'', old_a), (js ''b'', old_b)])
       (snapshot_marker (js ''a'', old_a))"

text \<open>
  A record named CAFE with an acute accent on the E, in capitals, next to one named
  Globex Inc, and the search text "cafe" with the accent, in small letters.
\<close>

definition cafe_record :: marker where
  "cafe_record =
     \<lparr>site_name = [0x43, 0x41, 0x46, 0xC9], description = js ''Lyon'',
      salesperson = js ''bob@seewise.ai'', stage = js ''Pipeline'', lat' = 45.76, lng = 4.84,
      timestamp = js ''2025-02-01T00:00:00.000Z'', marker_id = Some (js ''d1'')\<rparr>"

definition globex_record :: marker where
  "globex_record =
     \<lparr>site_name = js ''Globex Inc'', description = js ''West Virginia'',
      salesperson = js ''bob@seewise.ai'', stage = js ''In Proposal'', lat' = 39.3, lng = - 80.0,
      timestamp = js ''2025-01-01T00:00:00.000Z'', marker_id = Some (js ''d2'')\<rparr>"

definition cafe_search :: js_string where
  "cafe_search = [0x63, 0x61, 0x66, 0xE9]"

text \<open>
  A record named with the Greek word for street in capitals (omicron, delta, omicron,
  sigma), and the values the engine's \<open>toLowerCase\<close> takes on the strings of that
  example: the name becomes omicron, delta, omicron, final sigma (U+03C2); a capital
  sigma on its own becomes a small sigma (U+03C3); "Pipeline" becomes "pipeline". The
  example applies it to no other string.
\<close>

definition odos_record :: marker where
  "odos_record =
     \<lparr>site_name = [0x39F, 0x394, 0x39F, 0x3A3], description = js ''Athens'',
      salesperson = js ''bob@seewise.ai'', stage = js ''Pipeline'', lat' = 37.98, lng = 23.72,
      timestamp = js ''2025-02-01T00:00:00.000Z'', marker_id = Some (js ''d3'')\<rparr>"

definition odos_toLowerCase :: "js_string \<Rightarrow> js_string" where
  "odos_toLowerCase s =
     (if s = [0x39F, 0x394, 0x39F, 0x3A3] then [0x3BF, 0x3B4, 0x3BF, 0x3C2]
      else if s = [0x3A3] then [0x3C3]
      else if s = js ''Pipeline'' then js ''pipeline''
      else s)"

section \<open>Properties of the search controller\<close>

text \<open>
  C8: the clear action, in any state, resets the query, the suggestion list, the
  selected position and name, the error message and the expanded flag.
\<close>

theorem handleClear_resets:
  "query (handleClear s) = [] \<and>
   suggestions (handleClear s) = [] \<and>
   selectedPosition (handleClear s) = None \<and>
   selectedName (handleClear s) = [] \<and>
   error (handleClear s) = [] \<and>
   isExpanded (handleClear s) = False"
  by (simp add: handleClear_def)

text \<open>
  C5: for a query of fewer than 3 characters \<open>searchLocations\<close> hands nothing to
  \<open>fetch\<close> (the list of requests is unchanged, and so are the controllers and the ref)
  and sets the suggestion list empty.
\<close>

theorem short_query_no_lookup:
  assumes "length q < 3"
  shows "requests (searchLocations s q) = requests s \<and>
         suggestions (searchLocations s q) = [] \<and>
         controllers (searchLocations s q) = controllers s \<and>
         abortControllerRef (searchLocations s q) = abortControllerRef s"
  using assms by (simp add: searchLocations_def)

theorem short_query_no_lookup_witness:
  "length (js ''ab'') < 3 \<and>
   requests (searchLocations initial_search (js ''ab'')) = [] \<and>
   suggestions (searchLocations initial_search (js ''ab'')) = []"
  using short_query_no_lookup [of "(js ''ab'')" initial_search]
  by (simp add: initial_search_def js_def)

text \<open>
  C7: when a lookup settles, zero matches give an empty suggestion list and the message
  "No results found"; an error whose name is not AbortError gives an empty suggestion
  list and the message "Search failed. Please try again."; an AbortError changes nothing
  but the loading flag, so it sets no error.
\<close>

theorem settled_outcomes:
  "suggestions (searchLocations_settled s (Results [])) = [] \<and>
   error (searchLocations_settled s (Results [])) = js ''No results found'' \<and>
   (name \<noteq> js ''AbortError'' \<longrightarrow>
      suggestions (searchLocations_settled s (Throws name)) = [] \<and>
      error (searchLocations_settled s (Throws name)) = js ''Search failed. Please try again.'') \<and>
   searchLocations_settled s (Throws (js ''AbortError'')) = s\<lparr>isLoading := False\<rparr>"
  by (simp add: searchLocations_settled_def)

theorem settled_outcomes_witness:
  "(js ''TypeError'') \<noteq> js ''AbortError'' \<and>
   suggestions (searchLocations_settled initial_search (Throws (js ''TypeError''))) = [] \<and>
   error (searchLocations_settled initial_search (Throws (js ''TypeError''))) =
     (js ''Search failed. Please try again.'') \<and>
   error (searchLocations_settled initial_search (Throws (js ''AbortError''))) = []"
  using settled_outcomes [of initial_search "(js ''TypeError'')"]
  by (simp add: initial_search_def js_def)

text \<open>
  C1: a lookup for "par" is issued, then one for "pari" before the first has settled.
  The second call aborts the first call's controller, but no request carries a signal, so
  the first request still settles with the network's answer: after the second lookup's
  result (Paris) has been shown, the superseded lookup's result (Parma) replaces it.
\<close>

theorem superseded_lookup_result_applied:
  "controllers (run initial_search [Lookup (js ''par''), Lookup (js ''pari'')]) = [True, False] \<and>
   map req_signal (requests (run initial_search [Lookup (js ''par''), Lookup (js ''pari'')])) =
     [None, None] \<and>
   suggestions (run initial_search
     [Lookup (js ''par''), Lookup (js ''pari''), Arrive 1 (Results [paris])]) = [paris] \<and>
   suggestions (run initial_search
     [Lookup (js ''par''), Lookup (js ''pari''), Arrive 1 (Results [paris]),
      Arrive 0 (Results [parma])]) = [parma]"
  by (simp add: run_def searchLocations_def searchLocations_settled_def fetch_def
      initial_search_def js_def)

text \<open>
  C9, as stated, at a concrete input: a suggestion selected while \<open>mapRef.current\<close> is
  unset recenters no map.
\<close>

theorem handleSelect_without_map:
  "snd (handleSelect initial_search None paris) = None \<and>
   map_option center (snd (handleSelect initial_search None paris)) \<noteq>
     Some (lat paris, lon paris)"
  by (simp add: handleSelect_def)

text \<open>
  C9, amended: selecting a suggestion sets the selected position and name to the
  suggestion's coordinate and name, empties the suggestion list, collapses the panel and
  clears the error; when the map instance is set it is recentred on the suggestion's
  coordinate at zoom 14, and when it is not set no recentring takes place.
\<close>

theorem handleSelect_effects:
  "selectedPosition (fst (handleSelect s mapRef p)) = Some (lat p, lon p) \<and>
   selectedName (fst (handleSelect s mapRef p)) = display_name p \<and>
   suggestions (fst (handleSelect s mapRef p)) = [] \<and>
   isExpanded (fst (handleSelect s mapRef p)) = False \<and>
   error (fst (handleSelect s mapRef p)) = [] \<and>
   snd (handleSelect s (Some m) p) = Some (m\<lparr>center := (lat p, lon p), zoom := 14\<rparr>) \<and>
   snd (handleSelect s None p) = None"
  by (simp add: handleSelect_def setView_def Let_def)

section \<open>Properties of the dashboard\<close>

subsection \<open>The sidebar filter\<close>

lemma startsWith_append: "startsWith s n \<longleftrightarrow> (\<exists>r. s = n @ r)"
  by (induction s n rule: startsWith.induct) auto

lemma includes_str_parts: "includes_str s n \<longleftrightarrow> (\<exists>ps ss. s = ps @ n @ ss)"
proof (induction s)
  case Nil
  then show ?case by (simp add: startsWith_append)
next
  case (Cons x xs)
  show ?case
  proof
    assume "includes_str (x # xs) n"
    then consider "startsWith (x # xs) n" | "includes_str xs n" by auto
    then show "\<exists>ps ss. x # xs = ps @ n @ ss"
    proof cases
      case 1
      then obtain r where "x # xs = n @ r" by (auto simp: startsWith_append)
      then have "x # xs = [] @ n @ r" by simp
      then show ?thesis by blast
    next
      case 2
      with Cons.IH obtain ps ss where "xs = ps @ n @ ss" by blast
      then have "x # xs = (x # ps) @ n @ ss" by simp
      then show ?thesis by blast
    qed
  next
    assume "\<exists>ps ss. x # xs = ps @ n @ ss"
    then obtain ps ss where eq: "x # xs = ps @ n @ ss" by blast
    show "includes_str (x # xs) n"
    proof (cases ps)
      case Nil
      with eq have "startsWith (x # xs) n" by (auto simp: startsWith_append)
      then show ?thesis by simp
    next
      case (Cons p ps')
      with eq have "xs = ps' @ n @ ss" by simp
      with Cons.IH have "includes_str xs n" by blast
      then show ?thesis by simp
    qed
  qed
qed

lemma includes_str_contains: "includes_str s n \<longleftrightarrow> contains_substring s n"
  by (simp add: includes_str_parts contains_substring_def)

lemma map_split:
  assumes "map f t = ps @ n @ ss"
  shows "\<exists>a b c. t = a @ b @ c \<and> map f b = n"
proof -
  let ?a = "take (length ps) t"
  let ?b = "take (length n) (drop (length ps) t)"
  let ?c = "drop (length n) (drop (length ps) t)"
  have "?b @ ?c = drop (length ps) t" by (rule append_take_drop_id)
  then have t: "t = ?a @ ?b @ ?c" by (simp only: append_take_drop_id)
  have "map f ?b = take (length n) (drop (length ps) (map f t))"
    by (simp add: take_map drop_map)
  also have "\<dots> = n" using assms by simp
  finally have "map f ?b = n" .
  with t show ?thesis by blast
qed

lemma lower_latin1_same_letter: "lower_latin1 c = lower_latin1 d \<longleftrightarrow> same_letter c d"
  unfolding lower_latin1_def same_letter_def capital_latin1_def by (simp split: if_splits) arith

lemma map_lower_latin1_same: "map lower_latin1 a = map lower_latin1 b \<longleftrightarrow> same_up_to_case a b"
proof -
  have "map lower_latin1 a = map lower_latin1 b \<longleftrightarrow>
        list_all2 (\<lambda>x y. lower_latin1 x = lower_latin1 y) a b"
    by (induction a arbitrary: b) (auto simp: list_all2_Cons1 Cons_eq_map_conv)
  then show ?thesis
    by (simp add: same_up_to_case_def lower_latin1_same_letter)
qed

lemma includes_lower_latin1:
  "includes_str (map lower_latin1 t) (map lower_latin1 q) \<longleftrightarrow> contains_case_insensitive t q"
proof
  assume "includes_str (map lower_latin1 t) (map lower_latin1 q)"
  then obtain ps ss where "map lower_latin1 t = ps @ map lower_latin1 q @ ss"
    by (auto simp: includes_str_parts)
  from map_split [OF this]
  show "contains_case_insensitive t q"
    by (auto simp: contains_case_insensitive_def map_lower_latin1_same)
next
  assume "contains_case_insensitive t q"
  then obtain a b c where "t = a @ b @ c" and "map lower_latin1 b = map lower_latin1 q"
    by (auto simp: contains_case_insensitive_def map_lower_latin1_same)
  then have "map lower_latin1 t = map lower_latin1 a @ map lower_latin1 q @ map lower_latin1 c"
    by simp
  then show "includes_str (map lower_latin1 t) (map lower_latin1 q)"
    unfolding includes_str_parts by blast
qed

text \<open>
  C6, as stated, at a concrete input: the only record is named with the Greek word for
  street in capitals and the search text is a capital sigma. The name contains the search
  text itself, so it contains it as a case-insensitive substring; but the engine
  lower-cases the name with a final sigma and the search text with a small sigma, and the
  filtered list is empty.
\<close>

theorem filteredMarkers_final_sigma:
  "site_name odos_record = [0x39F, 0x394, 0x39F] @ [0x3A3] @ [] \<and>
   contains_case_insensitive (site_name odos_record) [0x3A3] \<and>
   odos_toLowerCase (site_name odos_record) = [0x3BF, 0x3B4, 0x3BF, 0x3C2] \<and>
   odos_toLowerCase [0x3A3] = [0x3C3] \<and>
   filteredMarkers odos_toLowerCase [odos_record] [0x3A3] = []"
proof -
  have n: "site_name odos_record = [0x39F, 0x394, 0x39F] @ [0x3A3] @ []"
    by (simp add: odos_record_def)
  have "same_up_to_case [0x3A3] [0x3A3]"
    by (simp add: same_up_to_case_def same_letter_def)
  with n have c: "contains_case_insensitive (site_name odos_record) [0x3A3]"
    unfolding contains_case_insensitive_def by blast
  have l: "odos_toLowerCase (site_name odos_record) = [0x3BF, 0x3B4, 0x3BF, 0x3C2]"
    "odos_toLowerCase [0x3A3] = [0x3C3]"
    "odos_toLowerCase (stage odos_record) = js ''pipeline''"
    by (simp_all add: odos_toLowerCase_def odos_record_def js_def)
  have "filteredMarkers odos_toLowerCase [odos_record] [0x3A3] = []"
    by (simp add: filteredMarkers_def l) (simp add: js_def)
  with n c l show ?thesis by simp
qed

text \<open>
  C6, amended: for every list of records and every search text, the filtered sidebar
  list holds exactly the records whose lower-cased name or lower-cased stage contains the
  lower-cased search text as a substring, in the order of the record list; and when the
  names, the stages and the search text consist of code units up to U+00FF, which the
  engine lower-cases one by one, these are exactly the records whose name or stage
  contains the search text as a case-insensitive substring.
\<close>

theorem filteredMarkers_lowercased:
  "filteredMarkers L ms srch =
     filter (\<lambda>m. contains_substring (L (site_name m)) (L srch) \<or>
                 contains_substring (L (stage m)) (L srch)) ms \<and>
   ((\<forall>s. latin1 s \<longrightarrow> L s = map lower_latin1 s) \<and> latin1 srch \<and>
    list_all (\<lambda>m. latin1 (site_name m) \<and> latin1 (stage m)) ms \<longrightarrow>
      filteredMarkers L ms srch =
        filter (\<lambda>m. contains_case_insensitive (site_name m) srch \<or>
                    contains_case_insensitive (stage m) srch) ms)"
proof (intro conjI impI)
  show "filteredMarkers L ms srch =
     filter (\<lambda>m. contains_substring (L (site_name m)) (L srch) \<or>
                 contains_substring (L (stage m)) (L srch)) ms"
    by (simp add: filteredMarkers_def includes_str_contains)
next
  assume h: "(\<forall>s. latin1 s \<longrightarrow> L s = map lower_latin1 s) \<and> latin1 srch \<and>
    list_all (\<lambda>m. latin1 (site_name m) \<and> latin1 (stage m)) ms"
  then have q: "L srch = map lower_latin1 srch" by simp
  have "(includes_str (L (site_name m)) (L srch) \<or> includes_str (L (stage m)) (L srch)) =
        (contains_case_insensitive (site_name m) srch \<or> contains_case_insensitive (stage m) srch)"
    if "m \<in> set ms" for m
  proof -
    from h that have "latin1 (site_name m)" "latin1 (stage m)"
      by (simp_all add: list_all_iff)
    with h have "L (site_name m) = map lower_latin1 (site_name m)"
      "L (stage m) = map lower_latin1 (stage m)" by simp_all
    with q show ?thesis by (simp add: includes_lower_latin1)
  qed
  then show "filteredMarkers L ms srch =
        filter (\<lambda>m. contains_case_insensitive (site_name m) srch \<or>
                    contains_case_insensitive (stage m) srch) ms"
    unfolding filteredMarkers_def by (rule filter_cong [OF refl])
qed

theorem filteredMarkers_lowercased_witness:
  "latin1 cafe_search \<and>
   latin1 (site_name cafe_record) \<and> latin1 (stage cafe_record) \<and>
   latin1 (site_name globex_record) \<and> latin1 (stage globex_record) \<and>
   filteredMarkers (map lower_latin1) [cafe_record, globex_record] cafe_search = [cafe_record] \<and>
   filter (\<lambda>m. contains_case_insensitive (site_name m) cafe_search \<or>
               contains_case_insensitive (stage m) cafe_search)
     [cafe_record, globex_record] = [cafe_record]"
proof -
  have l: "latin1 cafe_search" "latin1 (site_name cafe_record)" "latin1 (stage cafe_record)"
    "latin1 (site_name globex_record)" "latin1 (stage globex_record)"
    by (simp_all add: latin1_def cafe_search_def cafe_record_def globex_record_def js_def)
  then have h: "(\<forall>s. latin1 s \<longrightarrow> map lower_latin1 s = map lower_latin1 s) \<and> latin1 cafe_search \<and>
    list_all (\<lambda>m. latin1 (site_name m) \<and> latin1 (stage m)) [cafe_record, globex_record]"
    by simp
  from filteredMarkers_lowercased [of "map lower_latin1" "[cafe_record, globex_record]" cafe_search] h
  have eq: "filteredMarkers (map lower_latin1) [cafe_record, globex_record] cafe_search =
      filter (\<lambda>m. contains_case_insensitive (site_name m) cafe_search \<or>
                  contains_case_insensitive (stage m) cafe_search) [cafe_record, globex_record]"
    by blast
  have names: "map lower_latin1 (site_name cafe_record) = cafe_search"
    "map lower_latin1 cafe_search = cafe_search"
    "map lower_latin1 (stage cafe_record) = js ''pipeline''"
    "map lower_latin1 (site_name globex_record) = js ''globex inc''"
    "map lower_latin1 (stage globex_record) = js ''in proposal''"
    by (simp_all add: cafe_record_def globex_record_def cafe_search_def js_def
        lower_latin1_def capital_latin1_def)
  have run: "filteredMarkers (map lower_latin1) [cafe_record, globex_record] cafe_search =
      [cafe_record]"
    by (simp add: filteredMarkers_def names) (simp add: cafe_search_def js_def)
  from l eq run show ?thesis by simp
qed

subsection \<open>The subscription\<close>

text \<open>
  C2: at mount, before any snapshot has arrived, the local list holds the six built-in
  records, whose salespersons are John, Jane, Tony, Bruce, Alice and Bob: for the user
  bob@seewise.ai, who is not the administrator, the list holds records whose salesperson
  is not his address.
\<close>

theorem initial_markers_of_others:
  "map salesperson (markers (initial_dashboard clock)) =
     [js ''John'', js ''Jane'', js ''Tony'', js ''Bruce'', js ''Alice'', js ''Bob''] \<and>
   \<not> list_all (\<lambda>m. salesperson m = js ''bob@seewise.ai'') (markers (initial_dashboard clock))"
  by (simp add: initial_dashboard_def initial_markers_def js_def)

text \<open>
  Once a snapshot has been applied the list is the query's result set: a user's own
  records, all records for the administrator, by descending timestamp.
\<close>

lemma clients_query_admin: "clients_query (js ''admin@seewise.ai'') = [orderBy_timestamp_desc]"
  by (simp add: clients_query_def)

lemma clients_query_user:
  "email \<noteq> js ''admin@seewise.ai'' \<Longrightarrow>
   clients_query email = [where_salesperson_eq email, orderBy_timestamp_desc]"
  by (simp add: clients_query_def)

lemma set_run_query:
  "set (run_query cs docs) = {d \<in> set docs. list_all (satisfies (snd d)) cs}"
  by (auto simp add: run_query_def Let_def)

lemma set_clients_query:
  "set (run_query (clients_query email) docs) =
     {d \<in> set docs. email = js ''admin@seewise.ai'' \<or> salesperson (snd d) = email}"
  by (cases "email = js ''admin@seewise.ai''")
     (auto simp add: set_run_query clients_query_admin clients_query_user)

lemma snapshot_own_records:
  assumes "email \<noteq> js ''admin@seewise.ai''" and "m \<in> set (markers (next_snapshot d email docs))"
  shows "salesperson m = email"
  using assms
  by (auto simp add: next_snapshot_def onSnapshot_def set_clients_query snapshot_marker_def)

lemma snapshot_admin_all:
  "set (markers (next_snapshot d (js ''admin@seewise.ai'') docs)) = snapshot_marker ` set docs"
  by (simp add: next_snapshot_def onSnapshot_def set_clients_query)

lemma run_query_descending:
  "sorted_wrt (\<lambda>a b. timestamp (snd a) \<ge> timestamp (snd b)) (run_query (clients_query email) docs)"
proof -
  let ?hits = "filter (\<lambda>d. list_all (satisfies (snd d)) (clients_query email)) docs"
  have m: "orderBy_timestamp_desc \<in> set (clients_query email)"
    by (simp add: clients_query_def)
  have "sorted (map (\<lambda>d. timestamp (snd d)) (sort_key (\<lambda>d. timestamp (snd d)) ?hits))"
    by (rule sorted_sort_key)
  then have "sorted_wrt (\<lambda>a b. timestamp (snd a) \<le> timestamp (snd b))
               (sort_key (\<lambda>d. timestamp (snd d)) ?hits)"
    by (simp add: sorted_map)
  then have "sorted_wrt (\<lambda>a b. timestamp (snd a) \<ge> timestamp (snd b))
               (rev (sort_key (\<lambda>d. timestamp (snd d)) ?hits))"
    by (simp add: sorted_wrt_rev)
  with m show ?thesis by (simp add: run_query_def Let_def)
qed

lemma snapshot_descending:
  "sorted_wrt (\<lambda>a b. timestamp a \<ge> timestamp b) (markers (next_snapshot d email docs))"
  using run_query_descending [of email docs]
  by (simp add: next_snapshot_def onSnapshot_def sorted_wrt_map snapshot_marker_def)

subsection \<open>The form\<close>

text \<open>
  C3, as stated, at a concrete input: bob@seewise.ai, who is not the administrator, creates
  a record whose salesperson field he has set to carol@seewise.ai. The write completes,
  and the next snapshot of his subscription holds no record at all.
\<close>

theorem create_for_other_salesperson_hidden:
  "handleFormSubmit bob_form (js ''2025-03-01T10:00:00.000Z'') = Inr (addDoc carol_doc) \<and>
   apply_write [] (js ''doc1'') (addDoc carol_doc) = Inr [(js ''doc1'', carol_doc)] \<and>
   markers (next_snapshot bob_form (js ''bob@seewise.ai'') [(js ''doc1'', carol_doc)]) = []"
  by (simp add: bob_form_def carol_doc_def handleFormSubmit_def handleMapClick_def
      initial_dashboard_def empty_form_def DEFAULT_STAGE_def next_snapshot_def onSnapshot_def
      run_query_def clients_query_def js_def)

text \<open>
  C3, amended: for every form submission made by the administrator, or with the
  salesperson field equal to the user's own address, the snapshot that follows the
  completed write holds a record with the submitted name, description, salesperson,
  stage, latitude and longitude, an identifier from the store (the one assigned to the
  added document) and the timestamp of the submission.
\<close>

theorem create_roundtrip:
  assumes sub: "handleFormSubmit d now = Inr w"
      and wr: "apply_write docs newid w = Inr docs'"
      and vis: "email = js ''admin@seewise.ai'' \<or> salesperson (formData d) = email"
  shows "\<exists>m \<in> set (markers (next_snapshot d' email docs')).
           site_name m = site_name (formData d) \<and>
           description m = description (formData d) \<and>
           salesperson m = salesperson (formData d) \<and>
           stage m = stage (formData d) \<and>
           formLatLng d = Some (lat' m, lng m) \<and>
           marker_id m = Some (written_id newid w) \<and>
           timestamp m = now"
proof -
  let ?i = "written_id newid w" and ?nm = "written w"
  from sub obtain latlng where ll: "formLatLng d = Some latlng"
    by (auto simp: handleFormSubmit_def split: option.splits)
  from sub ll have nm: "?nm = \<lparr>site_name = site_name (formData d),
                    description = description (formData d),
                    salesperson = salesperson (formData d), stage = stage (formData d),
                    lat' = fst latlng, lng = snd latlng, timestamp = now\<rparr>"
    by (auto simp: handleFormSubmit_def Let_def split: option.splits if_splits)
  have "(?i, ?nm) \<in> set docs'"
  proof (cases w)
    case (updateDoc i u)
    with wr have "i \<in> fst ` set docs"
      and "docs' = map (\<lambda>d. if fst d = i then (i, u) else d) docs"
      by (auto split: if_splits)
    then have "(i, u) \<in> set docs'" by force
    with updateDoc show ?thesis by simp
  next
    case (addDoc u)
    with wr show ?thesis by auto
  qed
  with vis nm have "(?i, ?nm) \<in> set (run_query (clients_query email) docs')"
    by (auto simp: set_clients_query)
  then have "snapshot_marker (?i, ?nm) \<in> set (markers (next_snapshot d' email docs'))"
    by (simp add: next_snapshot_def onSnapshot_def)
  moreover have "site_name (snapshot_marker (?i, ?nm)) = site_name (formData d)"
    "description (snapshot_marker (?i, ?nm)) = description (formData d)"
    "salesperson (snapshot_marker (?i, ?nm)) = salesperson (formData d)"
    "stage (snapshot_marker (?i, ?nm)) = stage (formData d)"
    "formLatLng d = Some (lat' (snapshot_marker (?i, ?nm)), lng (snapshot_marker (?i, ?nm)))"
    "marker_id (snapshot_marker (?i, ?nm)) = Some ?i"
    "timestamp (snapshot_marker (?i, ?nm)) = now"
    using nm ll by (simp_all add: snapshot_marker_def)
  ultimately show ?thesis by blast
qed

theorem create_roundtrip_witness:
  "handleFormSubmit bob_own_form (js ''2025-03-01T10:00:00.000Z'') = Inr (addDoc bob_doc) \<and>
   apply_write [] (js ''doc1'') (addDoc bob_doc) = Inr [(js ''doc1'', bob_doc)] \<and>
   salesperson (formData bob_own_form) = js ''bob@seewise.ai'' \<and>
   markers (next_snapshot bob_own_form (js ''bob@seewise.ai'') [(js ''doc1'', bob_doc)]) =
     [snapshot_marker (js ''doc1'', bob_doc)]"
proof -
  have h1: "handleFormSubmit bob_own_form (js ''2025-03-01T10:00:00.000Z'') = Inr (addDoc bob_doc)"
    by (simp add: bob_own_form_def bob_doc_def handleFormSubmit_def handleMapClick_def
        initial_dashboard_def empty_form_def DEFAULT_STAGE_def)
  have h2: "apply_write [] (js ''doc1'') (addDoc bob_doc) = Inr [(js ''doc1'', bob_doc)]"
    by simp
  have h3: "salesperson (formData bob_own_form) = js ''bob@seewise.ai''"
    by (simp add: bob_own_form_def handleMapClick_def empty_form_def)
  then have h3': "(js ''bob@seewise.ai'') = js ''admin@seewise.ai'' \<or>
      salesperson (formData bob_own_form) = js ''bob@seewise.ai''" by simp
  from create_roundtrip [OF h1 h2 h3', of bob_own_form]
  have "markers (next_snapshot bob_own_form (js ''bob@seewise.ai'') [(js ''doc1'', bob_doc)]) \<noteq> []"
    by auto
  moreover have "length (markers (next_snapshot bob_own_form (js ''bob@seewise.ai'') [(js ''doc1'', bob_doc)])) \<le> 1
     \<and> set (markers (next_snapshot bob_own_form (js ''bob@seewise.ai'') [(js ''doc1'', bob_doc)])) \<subseteq> {snapshot_marker (js ''doc1'', bob_doc)}"
    by (simp add: next_snapshot_def onSnapshot_def run_query_def Let_def)
  ultimately have "markers (next_snapshot bob_own_form (js ''bob@seewise.ai'') [(js ''doc1'', bob_doc)]) =
     [snapshot_marker (js ''doc1'', bob_doc)]"
    by (cases "markers (next_snapshot bob_own_form (js ''bob@seewise.ai'') [(js ''doc1'', bob_doc)])") auto
  with h1 h2 h3 show ?thesis by simp
qed

text \<open>
  In a list sorted by a key, an element whose key is strictly above every other element's
  is the last one; so it heads the list sorted in descending order.
\<close>

lemma strict_max_is_last:
  assumes "sorted (map f xs)" and "x \<in> set xs" and "\<forall>y \<in> set xs. y \<noteq> x \<longrightarrow> f y < f x"
  shows "last xs = x"
  using assms
proof (induction xs)
  case Nil
  then show ?case by simp
next
  case (Cons a xs)
  show ?case
  proof (cases "xs = []")
    case True
    with Cons.prems show ?thesis by simp
  next
    case False
    then have l: "last xs \<in> set xs" by simp
    show ?thesis
    proof (cases "x \<in> set xs")
      case True
      with Cons have "last xs = x" by simp
      with False show ?thesis by simp
    next
      case False
      with Cons.prems have xa: "x = a" by simp
      from False l have "last xs \<noteq> x" by auto
      with Cons.prems l have "f (last xs) < f x" by simp
      moreover from Cons.prems l xa have "f x \<le> f (last xs)" by simp
      ultimately show ?thesis by simp
    qed
  qed
qed

lemma newest_first:
  assumes "x \<in> set xs" and "\<forall>y \<in> set xs. y \<noteq> x \<longrightarrow> f y < f x"
  shows "\<exists>rest. rev (sort_key f xs) = x # rest"
proof -
  let ?s = "sort_key f xs"
  have "sorted (map f ?s)" by (rule sorted_sort_key)
  moreover from assms have "x \<in> set ?s" "\<forall>y \<in> set ?s. y \<noteq> x \<longrightarrow> f y < f x" by simp_all
  ultimately have "last ?s = x" by (rule strict_max_is_last)
  moreover have "?s \<noteq> []"
  proof
    assume "?s = []"
    then have "length xs = 0" by (metis length_sort list.size(3))
    with assms(1) show False by simp
  qed
  ultimately have "?s = butlast ?s @ [x]" by (metis append_butlast_last_id)
  then have "rev ?s = x # rev (butlast ?s)" by (metis rev.simps(2) rev_rev_ident rev_swap)
  then show ?thesis by blast
qed

text \<open>
  C4: every form submission that reaches the store, an update as much as an add, writes a
  document whose timestamp is the time of the submission. For an update that the store
  applies, the document stored under the edited identifier then carries that time,
  whatever its timestamp was before; and when the submission is later than every stored
  timestamp, the edited record moves to the head of the timestamp-descending snapshot of
  every user who sees it.
\<close>

theorem submission_timestamp:
  assumes sub: "handleFormSubmit d now = Inr w"
  shows "timestamp (written w) = now \<and>
         (w = updateDoc i nm \<and> apply_write docs newid w = Inr docs' \<longrightarrow>
            i \<in> fst ` set docs' \<and>
            (\<forall>x \<in> set docs'. fst x = i \<longrightarrow> timestamp (snd x) = now) \<and>
            ((\<forall>x \<in> set docs. timestamp (snd x) < now) \<and>
             (email = js ''admin@seewise.ai'' \<or> salesperson nm = email) \<longrightarrow>
               (\<exists>rest. markers (next_snapshot d' email docs') = snapshot_marker (i, nm) # rest)))"
proof -
  from sub have ts: "timestamp (written w) = now"
    by (auto simp: handleFormSubmit_def Let_def split: option.splits if_splits)
  have "i \<in> fst ` set docs' \<and>
        (\<forall>x \<in> set docs'. fst x = i \<longrightarrow> timestamp (snd x) = now) \<and>
        ((\<forall>x \<in> set docs. timestamp (snd x) < now) \<and>
         (email = js ''admin@seewise.ai'' \<or> salesperson nm = email) \<longrightarrow>
           (\<exists>rest. markers (next_snapshot d' email docs') = snapshot_marker (i, nm) # rest))"
    if w: "w = updateDoc i nm" and wr: "apply_write docs newid w = Inr docs'"
  proof -
    from ts w have now: "timestamp nm = now" by simp
    from wr w have mem: "i \<in> fst ` set docs"
      and docs': "docs' = map (\<lambda>d. if fst d = i then (i, nm) else d) docs"
      by (auto split: if_splits)
    from mem docs' have in': "(i, nm) \<in> set docs'" by force
    then have c1: "i \<in> fst ` set docs'" by force
    from docs' now have c2: "\<forall>x \<in> set docs'. fst x = i \<longrightarrow> timestamp (snd x) = now" by auto
    have c3: "\<exists>rest. markers (next_snapshot d' email docs') = snapshot_marker (i, nm) # rest"
      if old: "\<forall>x \<in> set docs. timestamp (snd x) < now"
        and vis: "email = js ''admin@seewise.ai'' \<or> salesperson nm = email"
    proof -
      let ?hits = "filter (\<lambda>d. list_all (satisfies (snd d)) (clients_query email)) docs'"
      have hit: "(i, nm) \<in> set ?hits"
        using in' vis by (auto simp: clients_query_def)
      have "\<forall>y \<in> set docs'. y \<noteq> (i, nm) \<longrightarrow> timestamp (snd y) < timestamp (snd (i, nm))"
        using docs' old now by auto
      then have "\<forall>y \<in> set ?hits. y \<noteq> (i, nm) \<longrightarrow> timestamp (snd y) < timestamp (snd (i, nm))"
        by simp
      from newest_first [of "(i, nm)" ?hits "\<lambda>d. timestamp (snd d)", OF hit this]
      obtain rest where "rev (sort_key (\<lambda>d. timestamp (snd d)) ?hits) = (i, nm) # rest" by blast
      then have "run_query (clients_query email) docs' = (i, nm) # rest"
        by (simp add: run_query_def Let_def clients_query_def)
      then show ?thesis by (simp add: next_snapshot_def onSnapshot_def)
    qed
    from c1 c2 c3 show ?thesis by blast
  qed
  with ts show ?thesis by blast
qed

theorem submission_timestamp_witness:
  "handleFormSubmit edit_form (js ''2025-03-01T10:00:00.000Z'') =
     Inr (updateDoc (js ''a'') (old_a\<lparr>timestamp := js ''2025-03-01T10:00:00.000Z''\<rparr>)) \<and>
   apply_write [(js ''a'', old_a), (js ''b'', old_b)] (js ''c'')
       (updateDoc (js ''a'') (old_a\<lparr>timestamp := js ''2025-03-01T10:00:00.000Z''\<rparr>)) =
     Inr [(js ''a'', old_a\<lparr>timestamp := js ''2025-03-01T10:00:00.000Z''\<rparr>), (js ''b'', old_b)] \<and>
   timestamp old_a < js ''2025-03-01T10:00:00.000Z'' \<and>
   timestamp old_b < js ''2025-03-01T10:00:00.000Z'' \<and>
   map marker_id (markers (next_snapshot edit_form (js ''admin@seewise.ai'')
       [(js ''a'', old_a), (js ''b'', old_b)])) = [Some (js ''b''), Some (js ''a'')] \<and>
   map marker_id (markers (next_snapshot edit_form (js ''admin@seewise.ai'')
       [(js ''a'', old_a\<lparr>timestamp := js ''2025-03-01T10:00:00.000Z''\<rparr>), (js ''b'', old_b)])) =
     [Some (js ''a''), Some (js ''b'')]"
proof -
  let ?now = "(js ''2025-03-01T10:00:00.000Z'')"
  let ?w = "updateDoc (js ''a'') (old_a\<lparr>timestamp := ?now\<rparr>)"
  let ?docs = "[(js ''a'', old_a), (js ''b'', old_b)]"
  let ?docs' = "[(js ''a'', old_a\<lparr>timestamp := ?now\<rparr>), (js ''b'', old_b)]"
  have h1: "handleFormSubmit edit_form ?now = Inr ?w"
    by (simp add: edit_form_def handleEdit_def handleFormSubmit_def snapshot_marker_def old_a_def
        js_def)
  have h2: "apply_write ?docs (js ''c'') ?w = Inr ?docs'"
    by (simp add: js_def)
  have h3: "\<forall>x \<in> set ?docs. timestamp (snd x) < ?now"
    by (simp add: old_a_def old_b_def js_def)
  have before: "map marker_id (markers (next_snapshot edit_form (js ''admin@seewise.ai'') ?docs)) =
      [Some (js ''b''), Some (js ''a'')]"
    by (simp add: next_snapshot_def onSnapshot_def run_query_def clients_query_def
        snapshot_marker_def old_a_def old_b_def js_def)
  from submission_timestamp [OF h1, of "(js ''a'')" "old_a\<lparr>timestamp := ?now\<rparr>" ?docs "(js ''c'')" ?docs'
      "(js ''admin@seewise.ai'')" edit_form] h2 h3
  obtain rest where "markers (next_snapshot edit_form (js ''admin@seewise.ai'') ?docs') =
      snapshot_marker (js ''a'', old_a\<lparr>timestamp := ?now\<rparr>) # rest"
    by blast
  moreover have "map marker_id (markers (next_snapshot edit_form (js ''admin@seewise.ai'') ?docs')) =
      [Some (js ''a''), Some (js ''b'')]"
    by (simp add: next_snapshot_def onSnapshot_def run_query_def clients_query_def
        snapshot_marker_def old_a_def old_b_def js_def)
  ultimately show ?thesis using h1 h2 h3 before by (simp add: old_a_def old_b_def js_def)
qed

section \<open>Properties of the registration\<close>

text \<open>
  C10: when the email does not end with the allowed domain, or the password and its
  confirmation differ, or the password has fewer than 6 characters, \<open>handleRegister\<close>
  shows the validation message and does nothing else: neither the account-creation
  request nor any other call of the identity provider is issued.
\<close>

theorem invalid_registration_aborted:
  assumes "\<not> endsWith email (js ''@seewise.ai'') \<or> password \<noteq> confirmPassword \<or> length password < 6"
  shows "handleRegister email password confirmPassword fullName created updated \<in>
           {[alert (js ''Only @seewise.ai emails are allowed to register.'')],
            [alert (js ''Passwords do not match'')],
            [alert (js ''Password must be at least 6 characters long'')]} \<and>
         \<not> list_ex is_network_call
             (handleRegister email password confirmPassword fullName created updated)"
  using assms by (auto simp add: handleRegister_def)

theorem invalid_registration_aborted_witness:
  "\<not> endsWith (js ''bob@gmail.com'') (js ''@seewise.ai'') \<and>
   handleRegister (js ''bob@gmail.com'') (js ''secret1'') (js ''secret1'') (js ''Bob'') None None =
     [alert (js ''Only @seewise.ai emails are allowed to register.'')] \<and>
   handleRegister (js ''bob@seewise.ai'') (js ''secret1'') (js ''secret1'') (js ''Bob'') None None =
     [setLoading True, createUserWithEmailAndPassword (js ''bob@seewise.ai'') (js ''secret1''),
      updateProfile (js ''Bob''), alert (js ''Account created successfully!''), onLogin,
      setLoading False]"
  using invalid_registration_aborted [of "(js ''bob@gmail.com'')" "(js ''secret1'')" "(js ''secret1'')" "(js ''Bob'')" None None]
  by (simp add: handleRegister_def endsWith_def trim_def is_space_def js_def)

end
